theory Spec2Isabelle
  imports Main
begin

section \<open>The state form of the club-management front end\<close>

text \<open>
  This theory embeds \<^verbatim>\<open>src/modules/states/StateForm.tsx\<close>: the helpers
  \<^verbatim>\<open>prettifyFieldName\<close> and \<^verbatim>\<open>extractErrorMessage\<close>, the validation schema
  \<^verbatim>\<open>stateFormSchema\<close>, and the component \<^verbatim>\<open>StateForm\<close> as a transition system
  over the values its hooks hold (the form, the query, the two mutations) and the view
  that is on the screen.

  Strings are lists of characters, and \<open>length\<close> is the \<^verbatim>\<open>.length\<close> of the
  script string. The character functions below are exact on ASCII text, which is what
  the server's field keys are made of: \<^verbatim>\<open>[A-Z]\<close> and the \<^verbatim>\<open>i\<close> flag of a
  regular expression without the \<^verbatim>\<open>u\<close> flag only ever relate ASCII letters,
  and on ASCII \<^verbatim>\<open>toUpperCase\<close> maps \<open>a\<close>..\<open>z\<close> to \<open>A\<close>..\<open>Z\<close> and
  \<^verbatim>\<open>trim\<close> removes tab, line feed, vertical tab, form feed, carriage return and space.
\<close>

subsection \<open>Characters\<close>

definition upper_letters :: string where
  "upper_letters = ''ABCDEFGHIJKLMNOPQRSTUVWXYZ''"

definition lower_letters :: string where
  "lower_letters = ''abcdefghijklmnopqrstuvwxyz''"

text \<open>The character class \<^verbatim>\<open>[A-Z]\<close>.\<close>

definition is_upper :: "char \<Rightarrow> bool" where
  "is_upper c = (c \<in> set upper_letters)"

text \<open>\<^verbatim>\<open>toUpperCase\<close> and \<^verbatim>\<open>toLowerCase\<close> on one character.\<close>

definition toUpperCase :: "char \<Rightarrow> char" where
  "toUpperCase c = (case map_of (zip lower_letters upper_letters) c of Some u \<Rightarrow> u | None \<Rightarrow> c)"

definition toLowerCase :: "char \<Rightarrow> char" where
  "toLowerCase c = (case map_of (zip upper_letters lower_letters) c of Some l \<Rightarrow> l | None \<Rightarrow> c)"

text \<open>The characters \<^verbatim>\<open>trim\<close> removes: codes 9 to 13 and the space.\<close>

definition is_white :: "char \<Rightarrow> bool" where
  "is_white c = (c \<in> set [CHR 0x09, CHR 0x0A, CHR 0x0B, CHR 0x0C, CHR 0x0D, CHR '' ''])"

definition trim :: "string \<Rightarrow> string" where
  "trim s = rev (dropWhile is_white (rev (dropWhile is_white s)))"

subsection \<open>prettifyFieldName\<close>

text \<open>
  \<^verbatim>\<open>key.split("_")\<close>: the pieces between the separators, in order; the empty
  string gives one empty piece.
\<close>

fun split :: "char \<Rightarrow> string \<Rightarrow> string list" where
  "split sep [] = [[]]"
| "split sep (c # cs) =
     (if c = sep then [] # split sep cs
      else (case split sep cs of p # ps \<Rightarrow> (c # p) # ps | [] \<Rightarrow> [[c]]))"

text \<open>
  \<^verbatim>\<open>s.endsWith(suffix)\<close> up to the case of ASCII letters: what
  \<^verbatim>\<open>/suffix$/i\<close> tests.
\<close>

definition ends_with_ci :: "string \<Rightarrow> string \<Rightarrow> bool" where
  "ends_with_ci suffix s =
     (length suffix \<le> length s \<and>
      map toLowerCase (drop (length s - length suffix) s) = map toLowerCase suffix)"

text \<open>
  \<^verbatim>\<open>field.replace(/(key|id)$/i, "")\<close>: the expression is anchored at the end and
  is not global, so at most one suffix goes.
\<close>

definition strip_key_id :: "string \<Rightarrow> string" where
  "strip_key_id field =
     (if ends_with_ci ''key'' field then take (length field - 3) field
      else if ends_with_ci ''id'' field then take (length field - 2) field
      else field)"

text \<open>\<^verbatim>\<open>field.replace(/([A-Z])/g, " $1")\<close>: a space before every capital, the first too.\<close>

definition space_capitals :: "string \<Rightarrow> string" where
  "space_capitals field = concat (map (\<lambda>c. if is_upper c then [CHR '' '', c] else [c]) field)"

text \<open>\<^verbatim>\<open>field.charAt(0).toUpperCase() + field.slice(1)\<close>.\<close>

definition capitalize :: "string \<Rightarrow> string" where
  "capitalize field = (case field of [] \<Rightarrow> [] | c # cs \<Rightarrow> toUpperCase c # cs)"

definition prettifyFieldName :: "string \<Rightarrow> string" where
  "prettifyFieldName key =
     (let parts = split (CHR ''_'') key;
          field = (if length parts > 1 then parts ! 1 else key);
          field = strip_key_id field;
          field = trim (space_capitals field)
      in capitalize field)"

subsection \<open>The error-label mapping as the specification words it\<close>

text \<open>
  Step 1 of the specification: the key has more than one segment exactly when it holds
  an underscore, and the second segment is what stands between the first underscore and
  the next one (or the end).
\<close>

definition spec_segment :: "string \<Rightarrow> string" where
  "spec_segment key =
     (case dropWhile (\<lambda>c. c \<noteq> CHR ''_'') key of
        [] \<Rightarrow> key
      | _ # rest \<Rightarrow> takeWhile (\<lambda>c. c \<noteq> CHR ''_'') rest)"

text \<open>Step 2: one trailing \<open>key\<close> or \<open>id\<close>, in any mix of cases, is removed.\<close>

definition spec_strip_suffix :: "string \<Rightarrow> string" where
  "spec_strip_suffix field =
     (let back = map toLowerCase (rev field)
      in if take 3 back = ''yek'' then rev (drop 3 (rev field))
         else if take 2 back = ''di'' then rev (drop 2 (rev field))
         else field)"

text \<open>Step 3: a space before each capital that is not the first character.\<close>

fun spec_space_internal :: "string \<Rightarrow> string" where
  "spec_space_internal [] = []"
| "spec_space_internal (c # cs) =
     c # concat (map (\<lambda>d. if is_upper d then [CHR '' '', d] else [d]) cs)"

text \<open>Step 4: trim, then capitalize the first letter.\<close>

definition spec_prettify :: "string \<Rightarrow> string" where
  "spec_prettify key =
     capitalize (trim (spec_space_internal (spec_strip_suffix (spec_segment key))))"

subsection \<open>extractErrorMessage\<close>

text \<open>
  The error object a rejected request carries, \<^verbatim>\<open>{message, errors?}\<close>.
  \<open>err_errors\<close> is \<open>None\<close> when \<^verbatim>\<open>error.errors\<close> is missing, falsy or not an
  object; otherwise it lists the object's keys in the order of \<^verbatim>\<open>Object.keys\<close>,
  each with \<^verbatim>\<open>errors[key]?.message\<close> (\<open>None\<close> when that is undefined).
\<close>

record api_error =
  err_message :: "string option"
  err_errors :: "(string \<times> string option) list option"

fun starts_with :: "string \<Rightarrow> string \<Rightarrow> bool" where
  "starts_with [] s = True"
| "starts_with (p # ps) [] = False"
| "starts_with (p # ps) (c # cs) = (p = c \<and> starts_with ps cs)"

text \<open>The first occurrence of a pattern: what stands before it and what stands after it.\<close>

fun find_first :: "string \<Rightarrow> string \<Rightarrow> (string \<times> string) option" where
  "find_first pat [] = (if pat = [] then Some ([], []) else None)"
| "find_first pat (c # cs) =
     (if starts_with pat (c # cs) then Some ([], drop (length pat) (c # cs))
      else map_option (\<lambda>(before, after). (c # before, after)) (find_first pat cs))"

text \<open>
  The replacement text of \<^verbatim>\<open>String.prototype.replace\<close> for a string pattern:
  \<^verbatim>\<open>$$\<close> is a dollar, \<^verbatim>\<open>$&\<close> the match, \<^verbatim>\<open>$`\<close> the text before the match and
  \<^verbatim>\<open>$'\<close> the text after it; with no capture groups every other dollar stands for
  itself.
\<close>

fun get_substitution :: "string \<Rightarrow> string \<Rightarrow> string \<Rightarrow> string \<Rightarrow> string" where
  "get_substitution matched before after [] = []"
| "get_substitution matched before after [c] = [c]"
| "get_substitution matched before after (c # d # rest) =
     (if c = CHR ''$'' then
        (if d = CHR ''$'' then CHR ''$'' # get_substitution matched before after rest
         else if d = CHR ''&'' then matched @ get_substitution matched before after rest
         else if d = CHR 0x60 then before @ get_substitution matched before after rest
         else if d = CHR 0x27 then after @ get_substitution matched before after rest
         else c # get_substitution matched before after (d # rest))
      else c # get_substitution matched before after (d # rest))"

text \<open>\<^verbatim>\<open>s.replace(pat, repl)\<close> with a string pattern: the first occurrence only.\<close>

definition js_replace :: "string \<Rightarrow> string \<Rightarrow> string \<Rightarrow> string" where
  "js_replace s pat repl =
     (case find_first pat s of
        None \<Rightarrow> s
      | Some (before, after) \<Rightarrow> before @ get_substitution pat before after repl @ after)"

text \<open>
  The argument is \<open>None\<close> for a null or undefined \<^verbatim>\<open>error\<close>, which the optional
  chaining of the source lets through. Every path that leaves the nested conditions
  ends in \<^verbatim>\<open>return error?.message\<close>.
\<close>

definition extractErrorMessage :: "api_error option \<Rightarrow> string option" where
  "extractErrorMessage error =
     (let generic = (case error of None \<Rightarrow> None | Some e \<Rightarrow> err_message e) in
      case error of
        None \<Rightarrow> generic
      | Some e \<Rightarrow>
         (case err_errors e of
            None \<Rightarrow> generic
          | Some [] \<Rightarrow> generic
          | Some ((firstKey, message) # _) \<Rightarrow>
             if firstKey = [] then generic
             else (case message of
                     None \<Rightarrow> generic
                   | Some m \<Rightarrow>
                      if m = [] then generic
                      else Some (js_replace m firstKey (prettifyFieldName firstKey)))))"

text \<open>\<^verbatim>\<open>x || d\<close> for a string or undefined \<open>x\<close>: the empty string is falsy.\<close>

definition or_else :: "string option \<Rightarrow> string \<Rightarrow> string" where
  "or_else x d = (case x of None \<Rightarrow> d | Some s \<Rightarrow> if s = [] then d else s)"

subsection \<open>The component: props, state, effects\<close>

datatype mode = Create | Edit

text \<open>
  \<^verbatim>\<open>StateFormProps\<close>. \<open>onSuccess\<close> says whether the caller supplied the callback;
  \<^verbatim>\<open>className\<close> only styles the form.
\<close>

record props =
  mode :: mode
  stateId :: "string option"
  onSuccess :: bool

text \<open>\<^verbatim>\<open>StateData\<close>; \<open>stateName\<close> is \<open>None\<close> when the server sends null or nothing.\<close>

record StateData =
  data_id :: int
  stateName :: "string option"
  createdAt :: string
  updatedAt :: string

text \<open>
  What \<^verbatim>\<open>useForm\<close> holds for the one field \<^verbatim>\<open>stateName\<close>: its default value,
  its current value and its validation message.
\<close>

record form_state =
  defaultValues :: string
  fieldValue :: string
  fieldErrors :: "string option"

text \<open>
  What the component returns: the spinner, the failure notice with its one button
  \<open>Back to States\<close>, or the form with its input, its \<open>Cancel\<close> button and its submit
  button.
\<close>

record form_view =
  input_value :: string
  input_disabled :: bool
  cancel_disabled :: bool
  submit_disabled :: bool
  submit_label :: string

datatype view = LoadingView | FetchFailedView | FormView form_view

text \<open>
  The values of the hooks, and what is on the screen.
  \<^item> The form.
  \<^item> The query: \<^verbatim>\<open>data\<close>, \<^verbatim>\<open>isLoading\<close> (the first fetch is in flight),
    \<^verbatim>\<open>error\<close> and the count of failed attempts; \<open>isRefetching\<close> says that a fetch
    is in flight while the query already holds data, which \<^verbatim>\<open>isLoading\<close> does not
    show.
  \<^item> The two mutations: \<^verbatim>\<open>isPending\<close> says that the request of the latest
    \<^verbatim>\<open>mutate\<close> call has not settled. A request that a later \<^verbatim>\<open>mutate\<close> call
    superseded is still on its way and its callbacks still run: \<open>createStale\<close> and
    \<open>updateStale\<close> count those.
  \<^item> \<open>screen\<close> is the view of the last render. The user acts on the screen; a change of
    the hooks reaches it with the next render only.
\<close>

record controller =
  form :: form_state
  stateData :: "StateData option"
  isFetchingState :: bool
  isRefetching :: bool
  fetchError :: "api_error option"
  failureCount :: nat
  createPending :: bool
  createStale :: nat
  updatePending :: bool
  updateStale :: nat
  screen :: view

text \<open>
  Every call the component makes on a collaborator, in the order of the calls. A query key
  is a list whose elements are strings or undefined.
\<close>

datatype effect =
    HttpGet string
  | HttpPost string string
  | HttpPut string string
  | ToastSuccess string
  | ToastError string
  | InvalidateQueries "string option list"
  | ConsoleError string
  | Validate api_error
  | FormReset "string option"
  | CallOnSuccess
  | Navigate string

fun is_network :: "effect \<Rightarrow> bool" where
  "is_network (HttpGet _) = True"
| "is_network (HttpPost _ _) = True"
| "is_network (HttpPut _ _) = True"
| "is_network _ = False"

fun is_toast_success :: "effect \<Rightarrow> bool" where
  "is_toast_success (ToastSuccess _) = True"
| "is_toast_success _ = False"

fun is_toast_error :: "effect \<Rightarrow> bool" where
  "is_toast_error (ToastError _) = True"
| "is_toast_error _ = False"

fun is_invalidate :: "effect \<Rightarrow> bool" where
  "is_invalidate (InvalidateQueries _) = True"
| "is_invalidate _ = False"

fun is_form_reset :: "effect \<Rightarrow> bool" where
  "is_form_reset (FormReset _) = True"
| "is_form_reset _ = False"

fun is_completion :: "effect \<Rightarrow> bool" where
  "is_completion CallOnSuccess = True"
| "is_completion (Navigate _) = True"
| "is_completion _ = False"

subsection \<open>The validation schema and the form\<close>

text \<open>
  \<^verbatim>\<open>stateFormSchema\<close>: \<^verbatim>\<open>z.string().min(1, ...).max(255, ...)\<close>. The result is
  the message of the failed check, or the parsed value.
\<close>

definition stateFormSchema :: "string \<Rightarrow> string + string" where
  "stateFormSchema v =
     (if length v < 1 then Inl ''State name is required''
      else if length v > 255 then Inl ''State name must not exceed 255 characters''
      else Inr v)"

text \<open>
  \<^verbatim>\<open>form.reset(values?)\<close>: without an argument the field returns to the default
  value; with one, the argument becomes both the default and the current value. Both
  clear the validation message.
\<close>

definition form_reset :: "string option \<Rightarrow> form_state \<Rightarrow> form_state" where
  "form_reset v f =
     (case v of
        None \<Rightarrow> f\<lparr>fieldValue := defaultValues f, fieldErrors := None\<rparr>
      | Some n \<Rightarrow> f\<lparr>defaultValues := n, fieldValue := n, fieldErrors := None\<rparr>)"

subsection \<open>Rendering\<close>

definition isFormLoading :: "controller \<Rightarrow> bool" where
  "isFormLoading c = (createPending c \<or> updatePending c \<or> isFetchingState c)"

text \<open>The return value of the component, from the values of the hooks.\<close>

definition render :: "props \<Rightarrow> controller \<Rightarrow> view" where
  "render p c =
     (if mode p = Edit \<and> isFetchingState c then LoadingView
      else if mode p = Edit \<and> fetchError c \<noteq> None then FetchFailedView
      else FormView
        \<lparr>input_value = fieldValue (form c),
         input_disabled = isFormLoading c,
         cancel_disabled = isFormLoading c,
         submit_disabled = isFormLoading c,
         submit_label = (if mode p = Create then ''Create'' else ''Update'') @ '' State''\<rparr>)"

text \<open>A view offers submission when it shows a submit button that is not disabled.\<close>

definition offers_submit :: "view \<Rightarrow> bool" where
  "offers_submit v = (case v of FormView fv \<Rightarrow> \<not> submit_disabled fv | _ \<Rightarrow> False)"

subsection \<open>The query\<close>

text \<open>A value is truthy unless it is undefined or the empty string.\<close>

definition truthy :: "string option \<Rightarrow> bool" where
  "truthy v = (case v of None \<Rightarrow> False | Some s \<Rightarrow> s \<noteq> [])"

text \<open>An undefined value inside a template literal reads \<open>undefined\<close>.\<close>

definition template :: "string option \<Rightarrow> string" where
  "template v = (case v of None \<Rightarrow> ''undefined'' | Some s \<Rightarrow> s)"

text \<open>\<^verbatim>\<open>new Error(msg)\<close>, an object with a message and no \<^verbatim>\<open>errors\<close>.\<close>

definition Error :: "string \<Rightarrow> api_error" where
  "Error msg = \<lparr>err_message = Some msg, err_errors = None\<rparr>"

text \<open>
  \<^verbatim>\<open>queryFn\<close> up to the request: it throws when the id is falsy, else it asks for
  \<^verbatim>\<open>/api/states/${stateId}\<close>.
\<close>

definition queryFn :: "props \<Rightarrow> api_error + effect" where
  "queryFn p =
     (if \<not> truthy (stateId p) then Inl (Error ''State ID is required'')
      else Inr (HttpGet (''/api/states/'' @ template (stateId p))))"

text \<open>The options \<^verbatim>\<open>enabled\<close> and \<^verbatim>\<open>retry: false\<close> (no further attempt).\<close>

definition enabled :: "props \<Rightarrow> bool" where
  "enabled p = (mode p = Edit \<and> truthy (stateId p))"

definition retry :: nat where
  "retry = 0"

text \<open>
  The hooks as they are created: \<^verbatim>\<open>defaultValues: {stateName: ""}\<close> and nothing
  in flight. The screen gets its first view when the component is mounted; until then
  the field holds a placeholder.
\<close>

definition initial :: controller where
  "initial =
     \<lparr>form = \<lparr>defaultValues = [], fieldValue = [], fieldErrors = None\<rparr>,
      stateData = None, isFetchingState = False, isRefetching = False, fetchError = None,
      failureCount = 0, createPending = False, createStale = 0,
      updatePending = False, updateStale = 0, screen = LoadingView\<rparr>"

text \<open>
  Mounting the component. A query that is enabled runs \<^verbatim>\<open>queryFn\<close> at once and
  keeps what it throws as its \<^verbatim>\<open>error\<close>; a query that is not enabled does nothing.
  The first render puts the view of these hooks on the screen.
\<close>

definition mount :: "props \<Rightarrow> controller \<times> effect list" where
  "mount p =
     (if enabled p then
        (case queryFn p of
           Inl e \<Rightarrow> (initial\<lparr>fetchError := Some e, screen := render p (initial\<lparr>fetchError := Some e\<rparr>)\<rparr>, [])
         | Inr request \<Rightarrow>
             (initial\<lparr>isFetchingState := True,
                screen := render p (initial\<lparr>isFetchingState := True\<rparr>)\<rparr>, [request]))
      else (initial\<lparr>screen := render p initial\<rparr>, []))"

text \<open>
  The call of the component function. Its body has no \<^verbatim>\<open>throw\<close> of its own: the
  only one stands inside \<^verbatim>\<open>queryFn\<close>, which the query alone runs. So the call
  returns, whatever the props.
\<close>

definition StateForm :: "props \<Rightarrow> api_error + controller \<times> effect list" where
  "StateForm p = Inr (mount p)"

text \<open>
  A fetch resolves. The query keeps the object it holds when the data that arrives is
  equal to it, and a query that is loading holds none; so \<^verbatim>\<open>stateData\<close> changes
  unless equal data were held. The effect that watches \<^verbatim>\<open>stateData\<close> runs when it
  changes, and in edit mode resets the form to \<^verbatim>\<open>stateData.stateName || ""\<close>.
\<close>

definition query_onSuccess :: "props \<Rightarrow> controller \<Rightarrow> StateData \<Rightarrow> controller \<times> effect list" where
  "query_onSuccess p c d =
     (let held = (if isFetchingState c then None else stateData c);
          c = c\<lparr>stateData := Some d, isFetchingState := False, isRefetching := False,
                fetchError := None\<rparr> in
      if held \<noteq> Some d \<and> mode p = Edit then
        (let v = or_else (stateName d) [] in
         (c\<lparr>form := form_reset (Some v) (form c)\<rparr>, [FormReset (Some v)]))
      else (c, []))"

text \<open>
  A fetch rejects: the \<^verbatim>\<open>catch\<close> of \<^verbatim>\<open>queryFn\<close> logs and throws again; the
  query tries again only while it has attempts left.
\<close>

definition query_onError :: "props \<Rightarrow> controller \<Rightarrow> api_error \<Rightarrow> controller \<times> effect list" where
  "query_onError p c e =
     (if failureCount c < retry then
        (case queryFn p of
           Inl e' \<Rightarrow> (c\<lparr>isFetchingState := False, isRefetching := False, fetchError := Some e'\<rparr>,
                      [ConsoleError ''Failed to fetch state data:''])
         | Inr request \<Rightarrow> (c\<lparr>failureCount := Suc (failureCount c)\<rparr>,
                      [ConsoleError ''Failed to fetch state data:'', request]))
      else (c\<lparr>isFetchingState := False, isRefetching := False, fetchError := Some e\<rparr>,
            [ConsoleError ''Failed to fetch state data:'']))"

text \<open>
  \<^verbatim>\<open>queryClient.invalidateQueries({ queryKey: ["state", stateId] })\<close> names the key of
  the form's own query. The query of a mounted form, when it is enabled, then fetches
  again at once, behind the form: \<^verbatim>\<open>queryFn\<close> runs and the request goes out, and
  \<^verbatim>\<open>isLoading\<close> stays false. A query that is still loading keeps the request it
  has.
\<close>

definition invalidate_own_query :: "props \<Rightarrow> controller \<Rightarrow> controller \<times> effect list" where
  "invalidate_own_query p c =
     (if enabled p \<and> \<not> isFetchingState c then
        (case queryFn p of
           Inl e \<Rightarrow> (c\<lparr>fetchError := Some e\<rparr>, [])
         | Inr request \<Rightarrow> (c\<lparr>isRefetching := True\<rparr>, [request]))
      else (c, []))"

subsection \<open>The mutations\<close>

text \<open>The completion both success handlers and \<^verbatim>\<open>handleCancel\<close> end with.\<close>

definition complete :: "props \<Rightarrow> effect" where
  "complete p = (if onSuccess p then CallOnSuccess else Navigate ''/states'')"

text \<open>
  \<^verbatim>\<open>mutate\<close> sends the request at once, whether or not an earlier one is on its way;
  the earlier one is then no longer the one \<^verbatim>\<open>isPending\<close> speaks of.
\<close>

definition createMutation_mutate :: "controller \<Rightarrow> string \<Rightarrow> controller \<times> effect list" where
  "createMutation_mutate c data =
     (c\<lparr>createStale := (if createPending c then Suc (createStale c) else createStale c),
        createPending := True\<rparr>,
      [HttpPost ''/api/states'' data])"

definition createMutation_onSuccess :: "props \<Rightarrow> controller \<Rightarrow> controller \<times> effect list" where
  "createMutation_onSuccess p c =
     (c\<lparr>form := form_reset None (form c), createPending := False\<rparr>,
      [ToastSuccess ''State created successfully!'',
       InvalidateQueries [Some ''states''],
       FormReset None,
       complete p])"

definition createMutation_onError :: "controller \<Rightarrow> api_error \<Rightarrow> controller \<times> effect list" where
  "createMutation_onError c error =
     (let message = or_else (extractErrorMessage (Some error)) ''Failed to create state'' in
      (c\<lparr>createPending := False\<rparr>,
       [ConsoleError ''Create state error:'', ToastError message, Validate error]))"

definition updateMutation_mutate :: "props \<Rightarrow> controller \<Rightarrow> string \<Rightarrow> controller \<times> effect list" where
  "updateMutation_mutate p c data =
     (c\<lparr>updateStale := (if updatePending c then Suc (updateStale c) else updateStale c),
        updatePending := True\<rparr>,
      [HttpPut (''/api/states/'' @ template (stateId p)) data])"

text \<open>
  The second invalidation is the one of the form's own query; the request it starts goes
  out before the completion.
\<close>

definition updateMutation_onSuccess :: "props \<Rightarrow> controller \<Rightarrow> controller \<times> effect list" where
  "updateMutation_onSuccess p c =
     (fst (invalidate_own_query p (c\<lparr>updatePending := False\<rparr>)),
      [ToastSuccess ''State updated successfully!'',
       InvalidateQueries [Some ''states''],
       InvalidateQueries [Some ''state'', stateId p]] @
      snd (invalidate_own_query p (c\<lparr>updatePending := False\<rparr>)) @
      [complete p])"

definition updateMutation_onError :: "controller \<Rightarrow> api_error \<Rightarrow> controller \<times> effect list" where
  "updateMutation_onError c error =
     (let message = or_else (extractErrorMessage (Some error)) ''Failed to update state'' in
      (c\<lparr>updatePending := False\<rparr>,
       [ConsoleError ''Update state error:'', ToastError message, Validate error]))"

text \<open>
  The callbacks of a superseded request run as those of the latest one do; only
  \<^verbatim>\<open>isPending\<close> stays what it is, and one superseded request less is on its way.
\<close>

definition stale_create :: "controller \<Rightarrow> controller \<times> effect list \<Rightarrow> controller \<times> effect list" where
  "stale_create c r =
     ((fst r)\<lparr>createPending := createPending c, createStale := createStale c - 1\<rparr>, snd r)"

definition stale_update :: "controller \<Rightarrow> controller \<times> effect list \<Rightarrow> controller \<times> effect list" where
  "stale_update c r =
     ((fst r)\<lparr>updatePending := updatePending c, updateStale := updateStale c - 1\<rparr>, snd r)"

subsection \<open>Submitting and cancelling\<close>

definition onSubmit :: "props \<Rightarrow> controller \<Rightarrow> string \<Rightarrow> controller \<times> effect list" where
  "onSubmit p c data =
     (if mode p = Create then createMutation_mutate c data
      else updateMutation_mutate p c data)"

text \<open>
  \<^verbatim>\<open>form.handleSubmit(onSubmit)\<close> with the schema as resolver: the field value is
  validated; a failure becomes the field's message and \<^verbatim>\<open>onSubmit\<close> is not called;
  a success clears the message and calls \<^verbatim>\<open>onSubmit\<close> with the parsed value. The
  function awaits the resolver, which settles without waiting for anything from outside,
  so the call is taken to its end. It has no look at \<^verbatim>\<open>isPending\<close>.
\<close>

definition handleSubmit :: "props \<Rightarrow> controller \<Rightarrow> controller \<times> effect list" where
  "handleSubmit p c =
     (case stateFormSchema (fieldValue (form c)) of
        Inl msg \<Rightarrow> (c\<lparr>form := (form c)\<lparr>fieldErrors := Some msg\<rparr>\<rparr>, [])
      | Inr data \<Rightarrow> onSubmit p (c\<lparr>form := (form c)\<lparr>fieldErrors := None\<rparr>\<rparr>) data)"

definition handleCancel :: "props \<Rightarrow> controller \<Rightarrow> controller \<times> effect list" where
  "handleCancel p c = (c, [complete p])"

subsection \<open>Events\<close>

text \<open>
  What can happen to a mounted form.
  \<^item> The user acts on a control of the screen. A control that is disabled or not shown on
    the screen passes nothing on; one that is shown enabled calls its handler, whatever
    the hooks hold by then.
  \<^item> \<open>Render\<close>: the component renders again and the screen shows the view of the hooks.
  \<^item> A request that is in flight settles. \<open>CreateResolved\<close>, \<open>CreateRejected\<close>,
    \<open>UpdateResolved\<close> and \<open>UpdateRejected\<close> settle the request of the latest
    \<^verbatim>\<open>mutate\<close> call; the events named \<open>Stale\<close> settle a superseded one.
\<close>

datatype event =
    ChangeInput string
  | Submit
  | Cancel
  | Back
  | Render
  | FetchResolved StateData
  | FetchRejected api_error
  | CreateResolved
  | CreateRejected api_error
  | UpdateResolved
  | UpdateRejected api_error
  | StaleCreateResolved
  | StaleCreateRejected api_error
  | StaleUpdateResolved
  | StaleUpdateRejected api_error

definition step :: "props \<Rightarrow> controller \<Rightarrow> event \<Rightarrow> controller \<times> effect list" where
  "step p c ev =
     (case ev of
        ChangeInput v \<Rightarrow>
          (case screen c of
             FormView fv \<Rightarrow>
               if input_disabled fv then (c, [])
               else (c\<lparr>form := (form c)\<lparr>fieldValue := v\<rparr>\<rparr>, [])
           | _ \<Rightarrow> (c, []))
      | Submit \<Rightarrow>
          (case screen c of
             FormView fv \<Rightarrow> if submit_disabled fv then (c, []) else handleSubmit p c
           | _ \<Rightarrow> (c, []))
      | Cancel \<Rightarrow>
          (case screen c of
             FormView fv \<Rightarrow> if cancel_disabled fv then (c, []) else handleCancel p c
           | _ \<Rightarrow> (c, []))
      | Back \<Rightarrow>
          (case screen c of
             FetchFailedView \<Rightarrow> (c, [Navigate ''/states''])
           | _ \<Rightarrow> (c, []))
      | Render \<Rightarrow> (c\<lparr>screen := render p c\<rparr>, [])
      | FetchResolved d \<Rightarrow>
          if isFetchingState c \<or> isRefetching c then query_onSuccess p c d else (c, [])
      | FetchRejected e \<Rightarrow>
          if isFetchingState c \<or> isRefetching c then query_onError p c e else (c, [])
      | CreateResolved \<Rightarrow> if createPending c then createMutation_onSuccess p c else (c, [])
      | CreateRejected e \<Rightarrow> if createPending c then createMutation_onError c e else (c, [])
      | UpdateResolved \<Rightarrow> if updatePending c then updateMutation_onSuccess p c else (c, [])
      | UpdateRejected e \<Rightarrow> if updatePending c then updateMutation_onError c e else (c, [])
      | StaleCreateResolved \<Rightarrow>
          if 0 < createStale c then stale_create c (createMutation_onSuccess p c) else (c, [])
      | StaleCreateRejected e \<Rightarrow>
          if 0 < createStale c then stale_create c (createMutation_onError c e) else (c, [])
      | StaleUpdateResolved \<Rightarrow>
          if 0 < updateStale c then stale_update c (updateMutation_onSuccess p c) else (c, [])
      | StaleUpdateRejected e \<Rightarrow>
          if 0 < updateStale c then stale_update c (updateMutation_onError c e) else (c, []))"

text \<open>A run of events from a state: the last state and every effect, in order.\<close>

fun steps :: "props \<Rightarrow> controller \<Rightarrow> event list \<Rightarrow> controller \<times> effect list" where
  "steps p c [] = (c, [])"
| "steps p c (ev # evs) =
     (case step p c ev of
        (c', effs) \<Rightarrow> (case steps p c' evs of (c'', effs') \<Rightarrow> (c'', effs @ effs')))"

text \<open>The states a mounted form can be in.\<close>

inductive reachable :: "props \<Rightarrow> controller \<Rightarrow> bool" for p :: props where
  reachable_mount: "reachable p (fst (mount p))"
| reachable_step: "reachable p c \<Longrightarrow> reachable p (fst (step p c ev))"

subsection \<open>The failure message as the specification words it\<close>

text \<open>
  The first field-level error that can be shown: the first key of the errors object, when
  that key and its message are not empty.
\<close>

definition first_field_error :: "api_error \<Rightarrow> (string \<times> string) option" where
  "first_field_error e =
     (case err_errors e of
        Some ((k, Some m) # _) \<Rightarrow> if k \<noteq> [] \<and> m \<noteq> [] then Some (k, m) else None
      | _ \<Rightarrow> None)"

text \<open>
  A text with the raw key replaced by the label, at the first place the key stands; a
  text without the key stays as it is.
\<close>

definition replace_first :: "string \<Rightarrow> string \<Rightarrow> string \<Rightarrow> string" where
  "replace_first s key label =
     (case find_first key s of None \<Rightarrow> s | Some (before, after) \<Rightarrow> before @ label @ after)"

definition fallback :: "mode \<Rightarrow> string" where
  "fallback m = (if m = Create then ''Failed to create state'' else ''Failed to update state'')"

text \<open>
  The message shown after a failed submission: the first field error's message with the
  raw key replaced by its label; without such a field error the server's generic message,
  or, if that is absent, the fallback of the mode.
\<close>

definition spec_failure_message :: "mode \<Rightarrow> api_error \<Rightarrow> string" where
  "spec_failure_message m e =
     (case first_field_error e of
        Some (k, msg) \<Rightarrow> replace_first msg k (prettifyFieldName k)
      | None \<Rightarrow> (case err_message e of None \<Rightarrow> fallback m | Some g \<Rightarrow> g))"

text \<open>
  The errors this is stated for. With a field error: its key holds no dollar sign, and
  its message with the label in the place of the key is not empty. Without one: the
  generic message is not the empty string.
\<close>

definition plain_error :: "api_error \<Rightarrow> bool" where
  "plain_error e =
     (case first_field_error e of
        None \<Rightarrow> err_message e \<noteq> Some []
      | Some (k, msg) \<Rightarrow>
          CHR ''$'' \<notin> set k \<and> replace_first msg k (prettifyFieldName k) \<noteq> [])"

subsection \<open>A failed first fetch\<close>

text \<open>
  The form in edit mode whose query has failed, with nothing in flight and no form on the
  screen: where the failure of the first fetch leaves it.
\<close>

definition fetch_failed :: "props \<Rightarrow> controller \<Rightarrow> bool" where
  "fetch_failed p c =
     (mode p = Edit \<and> fetchError c \<noteq> None \<and> \<not> isFetchingState c \<and> \<not> isRefetching c \<and>
      \<not> createPending c \<and> createStale c = 0 \<and> \<not> updatePending c \<and> updateStale c = 0 \<and>
      (screen c = LoadingView \<or> screen c = FetchFailedView))"

subsection \<open>Sample forms\<close>

definition create_props :: props where
  "create_props = \<lparr>mode = Create, stateId = None, onSuccess = False\<rparr>"

definition edit_props :: props where
  "edit_props = \<lparr>mode = Edit, stateId = Some ''7'', onSuccess = True\<rparr>"

definition edit_props_no_id :: props where
  "edit_props_no_id = \<lparr>mode = Edit, stateId = None, onSuccess = False\<rparr>"

definition texas :: StateData where
  "texas = \<lparr>data_id = 7, stateName = Some ''Texas'',
     createdAt = ''2024-01-01'', updatedAt = ''2024-01-02''\<rparr>"

text \<open>The same state as the server holds it after the update to \<open>Tejas\<close>.\<close>

definition tejas :: StateData where
  "tejas = \<lparr>data_id = 7, stateName = Some ''Tejas'',
     createdAt = ''2024-01-01'', updatedAt = ''2024-03-05''\<rparr>"

text \<open>
  A create form with \<open>Goa\<close> typed in and submitted: the creation is in flight, and the
  screen still shows the form as it was rendered before.
\<close>

definition creating :: controller where
  "creating = fst (steps create_props (fst (mount create_props)) [ChangeInput ''Goa'', Submit])"

text \<open>The same form once it has rendered again.\<close>

definition creating_shown :: controller where
  "creating_shown = fst (step create_props creating Render)"

text \<open>An edit form still waiting for its resource.\<close>

definition loading :: controller where
  "loading = fst (mount edit_props)"

text \<open>An edit form that got its resource, was changed and submitted: the update is in flight.\<close>

definition updating :: controller where
  "updating =
     fst (steps edit_props loading [FetchResolved texas, Render, ChangeInput ''Tejas'', Submit])"

text \<open>The edit form after its fetch failed.\<close>

definition not_found :: api_error where
  "not_found = \<lparr>err_message = Some ''State not found'', err_errors = None\<rparr>"

definition failed :: controller where
  "failed = fst (step edit_props loading (FetchRejected not_found))"

text \<open>
  Server errors: one with a field error under a prefixed key, one that says nothing, and
  one whose field error has an empty message beside a generic message.
\<close>

definition name_error :: api_error where
  "name_error = \<lparr>err_message = Some ''Validation failed'',
     err_errors = Some [(''states_stateNameId'', Some ''states_stateNameId must be unique'')]\<rparr>"

definition silent_error :: api_error where
  "silent_error = \<lparr>err_message = None, err_errors = None\<rparr>"

definition blank_error :: api_error where
  "blank_error = \<lparr>err_message = Some ''Validation failed'',
     err_errors = Some [(''stateName'', Some [])]\<rparr>"

section \<open>The label mapping refines its specification\<close>

lemma split_unfold:
  "split sep s = takeWhile (\<lambda>c. c \<noteq> sep) s #
     (case dropWhile (\<lambda>c. c \<noteq> sep) s of [] \<Rightarrow> [] | _ # r \<Rightarrow> split sep r)"
  by (induction s) (auto split: list.splits)

lemma split_second:
  "(if length (split sep key) > 1 then split sep key ! 1 else key) =
     (case dropWhile (\<lambda>c. c \<noteq> sep) key of [] \<Rightarrow> key
      | _ # rest \<Rightarrow> takeWhile (\<lambda>c. c \<noteq> sep) rest)"
proof (cases "dropWhile (\<lambda>c. c \<noteq> sep) key")
  case Nil
  then have "split sep key = [takeWhile (\<lambda>c. c \<noteq> sep) key]"
    by (subst split_unfold) (simp only: Nil list.case)
  with Nil show ?thesis by (simp only: list.case list.size) simp
next
  case (Cons d rest)
  then have "split sep key = takeWhile (\<lambda>c. c \<noteq> sep) key # split sep rest"
    by (subst split_unfold) (simp only: Cons list.case)
  moreover have "split sep rest = takeWhile (\<lambda>c. c \<noteq> sep) rest #
     (case dropWhile (\<lambda>c. c \<noteq> sep) rest of [] \<Rightarrow> [] | _ # r \<Rightarrow> split sep r)"
    by (rule split_unfold)
  ultimately show ?thesis using Cons by simp
qed

lemma ends_with_ci_rev:
  "ends_with_ci suffix s \<longleftrightarrow>
     take (length suffix) (map toLowerCase (rev s)) = rev (map toLowerCase suffix)"
proof (cases "length suffix \<le> length s")
  case True
  have "take (length suffix) (map toLowerCase (rev s)) =
        rev (map toLowerCase (drop (length s - length suffix) s))"
    by (simp add: take_map take_rev rev_map)
  then show ?thesis using True by (simp add: ends_with_ci_def)
next
  case False
  then have "length (take (length suffix) (map toLowerCase (rev s))) < length (rev (map toLowerCase suffix))"
    by simp
  then have "take (length suffix) (map toLowerCase (rev s)) \<noteq> rev (map toLowerCase suffix)"
    by (metis less_irrefl)
  with False show ?thesis by (simp add: ends_with_ci_def)
qed

lemma strip_key_id_spec: "strip_key_id field = spec_strip_suffix field"
proof -
  have k: "ends_with_ci ''key'' field \<longleftrightarrow> take 3 (map toLowerCase (rev field)) = ''yek''"
    using ends_with_ci_rev [of "''key''" field]
    by (simp add: toLowerCase_def upper_letters_def lower_letters_def numeral_3_eq_3)
  have i: "ends_with_ci ''id'' field \<longleftrightarrow> take 2 (map toLowerCase (rev field)) = ''di''"
    using ends_with_ci_rev [of "''id''" field]
    by (simp add: toLowerCase_def upper_letters_def lower_letters_def numeral_2_eq_2)
  have d: "rev (drop n (rev field)) = take (length field - n) field" for n
    by (simp add: drop_rev)
  show ?thesis
    unfolding strip_key_id_def spec_strip_suffix_def Let_def k i d by simp
qed

lemma trim_space_capitals: "trim (space_capitals field) = trim (spec_space_internal field)"
proof (cases field)
  case Nil
  then show ?thesis by (simp add: space_capitals_def)
next
  case (Cons c cs)
  then show ?thesis
    by (simp add: space_capitals_def trim_def is_white_def)
qed

lemma prettify_refines: "prettifyFieldName key = spec_prettify key"
proof -
  have "(if length (split (CHR ''_'') key) > 1 then split (CHR ''_'') key ! 1 else key) = spec_segment key"
    unfolding spec_segment_def by (rule split_second)
  then show ?thesis
    by (simp add: prettifyFieldName_def spec_prettify_def Let_def strip_key_id_spec trim_space_capitals)
qed

section \<open>Replacing the key by its label\<close>

text \<open>
  What \<open>find_first\<close> returns does split the text around the pattern. A replacement
  without a dollar sign is inserted as it is, and the label of a key without a dollar
  sign has none: for such keys the replacement in \<open>extractErrorMessage\<close> puts the label
  in the place of the first occurrence of the key and does nothing else.
\<close>

lemma starts_with_append: "starts_with pat s \<Longrightarrow> s = pat @ drop (length pat) s"
  by (induction pat s rule: starts_with.induct) auto

lemma find_first_sound: "find_first pat s = Some (before, after) \<Longrightarrow> s = before @ pat @ after"
proof (induction s arbitrary: before)
  case Nil
  then show ?case by (simp split: if_splits)
next
  case (Cons c cs)
  show ?case
  proof (cases "starts_with pat (c # cs)")
    case True
    with Cons.prems have "before = []" and "after = drop (length pat) (c # cs)" by simp_all
    with starts_with_append [OF True] show ?thesis by simp
  next
    case False
    with Cons.prems obtain b where "find_first pat cs = Some (b, after)" and "before = c # b"
      by auto
    with Cons.IH show ?thesis by simp
  qed
qed

lemma get_substitution_plain:
  "CHR ''$'' \<notin> set repl \<Longrightarrow> get_substitution matched before after repl = repl"
  by (induction matched before after repl rule: get_substitution.induct) auto

lemma js_replace_plain:
  "CHR ''$'' \<notin> set repl \<Longrightarrow>
     js_replace s pat repl =
       (case find_first pat s of None \<Rightarrow> s | Some (before, after) \<Rightarrow> before @ repl @ after)"
  by (simp add: js_replace_def get_substitution_plain split: option.splits)

lemma toUpperCase_dollar: "toUpperCase c = CHR ''$'' \<Longrightarrow> c = CHR ''$''"
  by (simp add: toUpperCase_def lower_letters_def upper_letters_def split: if_splits)

lemma set_spec_segment: "set (spec_segment key) \<subseteq> set key"
proof (cases "dropWhile (\<lambda>c. c \<noteq> CHR ''_'') key")
  case Nil
  then show ?thesis by (simp only: spec_segment_def list.case)
next
  case (Cons d rest)
  have "set (takeWhile (\<lambda>c. c \<noteq> CHR ''_'') rest) \<subseteq> set rest"
    by (auto dest: set_takeWhileD)
  also have "\<dots> \<subseteq> set (dropWhile (\<lambda>c. c \<noteq> CHR ''_'') key)"
    by (simp only: Cons) auto
  also have "\<dots> \<subseteq> set key"
    by (auto dest: set_dropWhileD)
  finally show ?thesis by (simp only: spec_segment_def Cons list.case)
qed

lemma set_spec_strip_suffix: "set (spec_strip_suffix field) \<subseteq> set field"
  using set_drop_subset [of _ "rev field"] by (auto simp: spec_strip_suffix_def Let_def)

lemma set_spec_space_internal: "set (spec_space_internal field) \<subseteq> insert (CHR '' '') (set field)"
  by (cases field) auto

lemma set_trim: "set (trim s) \<subseteq> set s"
  by (auto simp: trim_def dest!: set_dropWhileD)

lemma label_dollar_free:
  assumes "CHR ''$'' \<notin> set key"
  shows "CHR ''$'' \<notin> set (prettifyFieldName key)"
proof -
  let ?field = "trim (spec_space_internal (spec_strip_suffix (spec_segment key)))"
  have "set ?field \<subseteq> insert (CHR '' '') (set key)"
    using set_trim set_spec_space_internal set_spec_strip_suffix set_spec_segment
    by (meson insert_mono subset_trans)
  with assms have free: "CHR ''$'' \<notin> set ?field" by auto
  have "CHR ''$'' \<notin> set (capitalize ?field)"
  proof (cases ?field)
    case Nil
    then show ?thesis by (simp add: capitalize_def)
  next
    case (Cons c cs)
    with free have "c \<noteq> CHR ''$''" and "CHR ''$'' \<notin> set cs" by auto
    with Cons show ?thesis using toUpperCase_dollar [of c] by (auto simp: capitalize_def)
  qed
  then show ?thesis by (simp add: prettify_refines spec_prettify_def)
qed

text \<open>
  \<open>extractErrorMessage\<close> returns the generic message unless there is a first field error
  with a non-empty key and message.
\<close>

lemma extract_generic:
  assumes "first_field_error e = None"
  shows "extractErrorMessage (Some e) = err_message e"
proof (cases "err_errors e")
  case None
  then show ?thesis by (simp add: extractErrorMessage_def)
next
  case (Some errs)
  show ?thesis
  proof (cases errs)
    case Nil
    with Some show ?thesis by (simp add: extractErrorMessage_def)
  next
    case (Cons entry rest)
    obtain k m where entry: "entry = (k, m)" by (cases entry)
    from assms Some Cons entry have "k = [] \<or> m = None \<or> m = Some []"
      by (cases m) (simp_all add: first_field_error_def split: if_splits)
    with Some Cons entry show ?thesis
      by (auto simp: extractErrorMessage_def Let_def)
  qed
qed

lemma extract_field:
  assumes "first_field_error e = Some (k, msg)"
  shows "extractErrorMessage (Some e) = Some (js_replace msg k (prettifyFieldName k))"
proof -
  from assms obtain rest where "err_errors e = Some ((k, Some msg) # rest)" "k \<noteq> []" "msg \<noteq> []"
    by (auto simp: first_field_error_def split: option.splits list.splits if_splits)
  then show ?thesis by (simp add: extractErrorMessage_def Let_def)
qed

section \<open>Invariants of the mounted form\<close>

lemmas handler_defs =
  render_def isFormLoading_def handleSubmit_def handleCancel_def onSubmit_def
  createMutation_mutate_def updateMutation_mutate_def createMutation_onSuccess_def
  updateMutation_onSuccess_def createMutation_onError_def updateMutation_onError_def
  query_onSuccess_def query_onError_def invalidate_own_query_def stale_create_def
  stale_update_def retry_def form_reset_def stateFormSchema_def queryFn_def

lemma edit_step:
  assumes "mode p = Edit" and "\<not> createPending c \<and> createStale c = 0"
  shows "\<not> createPending (fst (step p c ev)) \<and> createStale (fst (step p c ev)) = 0"
  using assms
  by (cases ev) (simp_all add: step_def handler_defs Let_def split: view.splits sum.splits)

lemma edit_quiet:
  assumes "reachable p c" and "mode p = Edit"
  shows "\<not> createPending c \<and> createStale c = 0"
  using assms
proof (induction rule: reachable.induct)
  case reachable_mount
  then show ?case by (simp add: mount_def initial_def queryFn_def)
next
  case (reachable_step c ev)
  then show ?case using edit_step [of p c ev] by blast
qed


lemma create_step:
  assumes "mode p = Create"
    and "\<not> updatePending c \<and> updateStale c = 0 \<and> defaultValues (form c) = [] \<and>
      \<not> isFetchingState c \<and> \<not> isRefetching c \<and> fetchError c = None"
  shows "\<not> updatePending (fst (step p c ev)) \<and> updateStale (fst (step p c ev)) = 0 \<and>
      defaultValues (form (fst (step p c ev))) = [] \<and>
      \<not> isFetchingState (fst (step p c ev)) \<and> \<not> isRefetching (fst (step p c ev)) \<and>
      fetchError (fst (step p c ev)) = None"
  using assms
  by (cases ev) (simp_all add: step_def handler_defs Let_def split: view.splits sum.splits)

lemma create_quiet:
  assumes "reachable p c" and "mode p = Create"
  shows "\<not> updatePending c \<and> updateStale c = 0 \<and> defaultValues (form c) = [] \<and>
      \<not> isFetchingState c \<and> \<not> isRefetching c \<and> fetchError c = None"
  using assms
proof (induction rule: reachable.induct)
  case reachable_mount
  then show ?case by (simp add: mount_def initial_def enabled_def)
next
  case (reachable_step c ev)
  then show ?case using create_step [of p c ev] by blast
qed

lemma loading_step:
  assumes "isFetchingState (fst (step p c ev))"
    and "isFetchingState c \<longrightarrow>
      mode p = Edit \<and> \<not> updatePending c \<and> updateStale c = 0 \<and> \<not> isRefetching c \<and>
      fetchError c = None \<and> screen c = LoadingView"
  shows "isFetchingState c \<and>
      mode p = Edit \<and> \<not> updatePending (fst (step p c ev)) \<and>
      updateStale (fst (step p c ev)) = 0 \<and> \<not> isRefetching (fst (step p c ev)) \<and>
      fetchError (fst (step p c ev)) = None \<and> screen (fst (step p c ev)) = LoadingView"
proof -
  have was: "isFetchingState c"
    using assms(1)
    by (cases ev)
      (simp_all add: step_def handler_defs Let_def split: view.splits sum.splits if_splits)
  with assms(2) have facts: "mode p = Edit" "\<not> updatePending c" "updateStale c = 0"
    "\<not> isRefetching c" "fetchError c = None" "screen c = LoadingView"
    by simp_all
  from was facts assms(1) show ?thesis
    by (cases ev)
      (simp_all add: step_def handler_defs Let_def split: sum.splits if_splits)
qed

lemma loading_quiet:
  assumes "reachable p c"
  shows "isFetchingState c \<longrightarrow>
      mode p = Edit \<and> \<not> updatePending c \<and> updateStale c = 0 \<and> \<not> isRefetching c \<and>
      fetchError c = None \<and> screen c = LoadingView"
  using assms
proof (induction rule: reachable.induct)
  case reachable_mount
  show ?case
    by (simp add: mount_def initial_def enabled_def queryFn_def render_def split: if_splits)
next
  case (reachable_step c ev)
  show ?case using loading_step [OF _ reachable_step.IH, of ev] by blast
qed

lemma reachable_steps: "reachable p c \<Longrightarrow> reachable p (fst (steps p c evs))"
proof (induction evs arbitrary: c)
  case Nil
  then show ?case by simp
next
  case (Cons ev evs)
  from Cons.prems have "reachable p (fst (step p c ev))" by (rule reachable_step)
  then have "reachable p (fst (steps p (fst (step p c ev)) evs))" by (rule Cons.IH)
  moreover have "fst (steps p c (ev # evs)) = fst (steps p (fst (step p c ev)) evs)"
    by (cases "step p c ev"; cases "steps p (fst (step p c ev)) evs") simp
  ultimately show ?case by simp
qed

lemma pending_mode:
  assumes "reachable p c"
  shows "createPending c \<or> 0 < createStale c \<Longrightarrow> mode p = Create"
    and "updatePending c \<or> 0 < updateStale c \<Longrightarrow> mode p = Edit"
proof -
  show "createPending c \<or> 0 < createStale c \<Longrightarrow> mode p = Create"
    using edit_quiet [OF assms] by (cases "mode p") auto
  show "updatePending c \<or> 0 < updateStale c \<Longrightarrow> mode p = Edit"
    using create_quiet [OF assms] by (cases "mode p") auto
qed

lemma failed_step:
  assumes "fetch_failed p c"
  shows "step p c ev =
     (if ev = Render then c\<lparr>screen := FetchFailedView\<rparr> else c,
      if ev = Back \<and> screen c = FetchFailedView then [Navigate ''/states''] else [])"
  using assms
  by (cases ev) (auto simp: fetch_failed_def step_def render_def)

lemma failed_stays: "fetch_failed p c \<Longrightarrow> fetch_failed p (fst (step p c ev))"
  by (simp add: failed_step) (simp add: fetch_failed_def)

lemma failed_step_screen:
  "fetch_failed p c \<Longrightarrow> (fst (step p c ev))\<lparr>screen := s\<rparr> = c\<lparr>screen := s\<rparr>"
  by (simp add: failed_step)

lemma failed_step_effects:
  "fetch_failed p c \<Longrightarrow> set (snd (step p c ev)) \<subseteq> {Navigate ''/states''}"
  by (auto simp: failed_step)

lemma failed_steps:
  assumes "fetch_failed p c"
  shows "fst (steps p c evs) = c\<lparr>screen := screen (fst (steps p c evs))\<rparr> \<and>
     \<not> offers_submit (screen (fst (steps p c evs))) \<and>
     set (snd (steps p c evs)) \<subseteq> {Navigate ''/states''}"
  using assms
proof (induction evs arbitrary: c)
  case Nil
  then show ?case by (auto simp: fetch_failed_def offers_submit_def)
next
  case (Cons ev evs)
  let ?c = "fst (step p c ev)"
  let ?x = "fst (steps p ?c evs)"
  have next_failed: "fetch_failed p ?c" using Cons.prems by (rule failed_stays)
  note ih = Cons.IH [OF next_failed]
  have first: "fst (steps p c (ev # evs)) = ?x"
    by (cases "step p c ev"; cases "steps p (fst (step p c ev)) evs") simp
  have second: "snd (steps p c (ev # evs)) = snd (step p c ev) @ snd (steps p ?c evs)"
    by (cases "step p c ev"; cases "steps p (fst (step p c ev)) evs") simp
  from ih have "?x = ?c\<lparr>screen := screen ?x\<rparr>" by (rule conjunct1)
  also have "\<dots> = c\<lparr>screen := screen ?x\<rparr>"
    using Cons.prems by (rule failed_step_screen)
  finally have hooks: "?x = c\<lparr>screen := screen ?x\<rparr>" .
  from ih have shown: "\<not> offers_submit (screen ?x)" by blast
  from ih have "set (snd (steps p ?c evs)) \<subseteq> {Navigate ''/states''}" by blast
  with failed_step_effects [OF Cons.prems, of ev]
  have effs: "set (snd (step p c ev) @ snd (steps p ?c evs)) \<subseteq> {Navigate ''/states''}"
    by simp
  show ?case
    unfolding first second using hooks shown effs by blast
qed

section \<open>The sample forms, evaluated\<close>

lemmas sample_defs =
  create_props_def edit_props_def texas_def tejas_def mount_def enabled_def truthy_def
  template_def initial_def or_else_def step_def

lemma creating_eq:
  "creating = \<lparr>form = \<lparr>defaultValues = [], fieldValue = ''Goa'', fieldErrors = None\<rparr>,
      stateData = None, isFetchingState = False, isRefetching = False, fetchError = None,
      failureCount = 0, createPending = True, createStale = 0,
      updatePending = False, updateStale = 0,
      screen = FormView \<lparr>input_value = [], input_disabled = False, cancel_disabled = False,
        submit_disabled = False, submit_label = ''Create State''\<rparr>\<rparr>"
  by (simp add: creating_def sample_defs handler_defs)

lemma creating_shown_eq:
  "creating_shown = creating\<lparr>screen :=
      FormView \<lparr>input_value = ''Goa'', input_disabled = True, cancel_disabled = True,
        submit_disabled = True, submit_label = ''Create State''\<rparr>\<rparr>"
  by (simp add: creating_shown_def creating_eq sample_defs handler_defs)

lemma loading_eq:
  "loading = \<lparr>form = \<lparr>defaultValues = [], fieldValue = [], fieldErrors = None\<rparr>,
      stateData = None, isFetchingState = True, isRefetching = False, fetchError = None,
      failureCount = 0, createPending = False, createStale = 0,
      updatePending = False, updateStale = 0, screen = LoadingView\<rparr>"
  by (simp add: loading_def sample_defs handler_defs)

lemma updating_eq:
  "updating = \<lparr>form = \<lparr>defaultValues = ''Texas'', fieldValue = ''Tejas'', fieldErrors = None\<rparr>,
      stateData = Some texas, isFetchingState = False, isRefetching = False, fetchError = None,
      failureCount = 0, createPending = False, createStale = 0,
      updatePending = True, updateStale = 0,
      screen = FormView \<lparr>input_value = ''Texas'', input_disabled = False, cancel_disabled = False,
        submit_disabled = False, submit_label = ''Update State''\<rparr>\<rparr>"
  by (simp add: updating_def loading_eq sample_defs handler_defs Let_def)

lemma failed_eq:
  "failed = \<lparr>form = \<lparr>defaultValues = [], fieldValue = [], fieldErrors = None\<rparr>,
      stateData = None, isFetchingState = False, isRefetching = False,
      fetchError = Some not_found, failureCount = 0, createPending = False, createStale = 0,
      updatePending = False, updateStale = 0, screen = LoadingView\<rparr>"
  by (simp add: failed_def loading_eq sample_defs handler_defs)

lemma reachable_creating: "reachable create_props creating"
  unfolding creating_def by (rule reachable_steps [OF reachable_mount])

lemma reachable_loading: "reachable edit_props loading"
  unfolding loading_def by (rule reachable_mount)

lemma reachable_updating: "reachable edit_props updating"
  unfolding updating_def by (rule reachable_steps [OF reachable_loading])

section \<open>The submit trigger while a request is pending\<close>

text \<open>
  While a creation or an update is pending the component renders the submit button
  disabled, and once that view is on the screen a submit passes nothing on.
\<close>

lemma pending_trigger_disabled:
  assumes "createPending c \<or> updatePending c"
  shows "isFormLoading c \<and> \<not> offers_submit (render p c) \<and>
     step p (c\<lparr>screen := render p c\<rparr>) Submit = (c\<lparr>screen := render p c\<rparr>, [])"
proof -
  have loading: "isFormLoading c" using assms by (auto simp: isFormLoading_def)
  then have hidden: "\<not> offers_submit (render p c)"
    by (simp add: render_def offers_submit_def)
  then have "step p (c\<lparr>screen := render p c\<rparr>) Submit = (c\<lparr>screen := render p c\<rparr>, [])"
    by (cases "render p c") (simp_all add: step_def offers_submit_def)
  with loading hidden show ?thesis by blast
qed

lemma pending_trigger_disabled_sample:
  "createPending creating \<and> \<not> offers_submit (render create_props creating) \<and>
   creating_shown = creating\<lparr>screen := render create_props creating\<rparr> \<and>
   step create_props creating_shown Submit = (creating_shown, []) \<and>
   snd (steps create_props (fst (mount create_props))
     [ChangeInput ''Goa'', Submit, Render, Submit]) = [HttpPost ''/api/states'' ''Goa'']"
proof -
  have c: "createPending creating" by (simp add: creating_eq)
  have shown: "creating_shown = creating\<lparr>screen := render create_props creating\<rparr>"
    by (simp add: creating_shown_def step_def)
  have "snd (steps create_props (fst (mount create_props))
     [ChangeInput ''Goa'', Submit, Render, Submit]) = [HttpPost ''/api/states'' ''Goa'']"
    by (simp add: sample_defs handler_defs)
  with pending_trigger_disabled [of creating create_props] c shown show ?thesis by simp
qed

section \<open>The claims\<close>

text \<open>
  Claim C1. \<^verbatim>\<open>prettifyFieldName\<close> computes, for every key, what the four steps of the
  specified algorithm compute: the second underscore segment (or the whole key), one
  trailing \<open>key\<close> or \<open>id\<close> stripped in any case, a space before each internal capital,
  trimmed and with its first letter capitalized. It maps \<open>states_stateNameId\<close> to
  \<open>State Name\<close> and \<open>states_stateKey\<close> to \<open>State\<close>.
\<close>

theorem prettifyFieldName_algorithm:
  "prettifyFieldName key = spec_prettify key \<and>
   prettifyFieldName ''states_stateNameId'' = ''State Name'' \<and>
   prettifyFieldName ''states_stateKey'' = ''State''"
proof -
  have "prettifyFieldName ''states_stateNameId'' = ''State Name''" by code_simp
  moreover have "prettifyFieldName ''states_stateKey'' = ''State''" by code_simp
  ultimately show ?thesis by (simp add: prettify_refines)
qed

text \<open>
  Claim C2. Submitting a field value issues exactly one network call, the creation in
  create mode and the update in edit mode, with that value, and leaves no validation
  message, when the value has 1 to 255 characters; otherwise it issues no network call
  and sets the validation message of the name field.
\<close>

theorem submit_validation:
  "(if 1 \<le> length (fieldValue (form c)) \<and> length (fieldValue (form c)) \<le> 255
    then filter is_network (snd (handleSubmit p c)) =
           [if mode p = Create then HttpPost ''/api/states'' (fieldValue (form c))
            else HttpPut (''/api/states/'' @ template (stateId p)) (fieldValue (form c))] \<and>
         fieldErrors (form (fst (handleSubmit p c))) = None
    else filter is_network (snd (handleSubmit p c)) = [] \<and>
         fieldErrors (form (fst (handleSubmit p c))) \<noteq> None)"
  by (cases "fieldValue (form c)")
    (simp_all add: handleSubmit_def stateFormSchema_def onSubmit_def createMutation_mutate_def
      updateMutation_mutate_def)

text \<open>
  Claim C2 at work: \<open>Goa\<close> is posted once; the empty name is not sent and is reported.
\<close>

theorem submit_validation_witness:
  "filter is_network (snd (handleSubmit create_props
      (initial\<lparr>form := (form initial)\<lparr>fieldValue := ''Goa''\<rparr>\<rparr>))) =
     [HttpPost ''/api/states'' ''Goa''] \<and>
   filter is_network (snd (handleSubmit create_props initial)) = [] \<and>
   fieldErrors (form (fst (handleSubmit create_props initial))) = Some ''State name is required''"
proof -
  have "filter is_network (snd (handleSubmit create_props
      (initial\<lparr>form := (form initial)\<lparr>fieldValue := ''Goa''\<rparr>\<rparr>))) =
     [HttpPost ''/api/states'' ''Goa'']"
    using submit_validation [of "initial\<lparr>form := (form initial)\<lparr>fieldValue := ''Goa''\<rparr>\<rparr>" create_props]
    by (simp add: create_props_def initial_def)
  moreover have "filter is_network (snd (handleSubmit create_props initial)) = []"
    using submit_validation [of initial create_props]
    by (simp add: initial_def)
  moreover have "fieldErrors (form (fst (handleSubmit create_props initial))) = Some ''State name is required''"
    by (simp add: handleSubmit_def stateFormSchema_def initial_def)
  ultimately show ?thesis by blast
qed

text \<open>
  Claim C3. When a creation or an update that is in flight succeeds (the request of the
  latest call or a superseded one), exactly one success notification is raised; the list
  of states is invalidated, and in edit mode only also the entry of the one state; and
  exactly one completion follows: the caller's callback when it was supplied, else the
  navigation to \<open>/states\<close>, never both.
\<close>

theorem success_effects:
  assumes "reachable p c"
    and "ev = CreateResolved \<and> createPending c \<or> ev = StaleCreateResolved \<and> 0 < createStale c \<or>
         ev = UpdateResolved \<and> updatePending c \<or> ev = StaleUpdateResolved \<and> 0 < updateStale c"
  shows "length (filter is_toast_success (snd (step p c ev))) = 1 \<and>
      filter is_invalidate (snd (step p c ev)) =
        InvalidateQueries [Some ''states''] #
          (if mode p = Edit then [InvalidateQueries [Some ''state'', stateId p]] else []) \<and>
      filter is_completion (snd (step p c ev)) =
        [if onSuccess p then CallOnSuccess else Navigate ''/states'']"
proof -
  have created: "mode p = Create \<Longrightarrow>
      length (filter is_toast_success (snd (createMutation_onSuccess p c))) = 1 \<and>
      filter is_invalidate (snd (createMutation_onSuccess p c)) =
        InvalidateQueries [Some ''states''] #
          (if mode p = Edit then [InvalidateQueries [Some ''state'', stateId p]] else []) \<and>
      filter is_completion (snd (createMutation_onSuccess p c)) =
        [if onSuccess p then CallOnSuccess else Navigate ''/states'']"
    by (simp add: createMutation_onSuccess_def complete_def)
  have updated: "mode p = Edit \<Longrightarrow>
      length (filter is_toast_success (snd (updateMutation_onSuccess p c))) = 1 \<and>
      filter is_invalidate (snd (updateMutation_onSuccess p c)) =
        InvalidateQueries [Some ''states''] #
          (if mode p = Edit then [InvalidateQueries [Some ''state'', stateId p]] else []) \<and>
      filter is_completion (snd (updateMutation_onSuccess p c)) =
        [if onSuccess p then CallOnSuccess else Navigate ''/states'']"
    by (simp add: updateMutation_onSuccess_def invalidate_own_query_def queryFn_def complete_def)
  from assms(2) show ?thesis
  proof (elim disjE conjE)
    assume ev: "ev = CreateResolved" and pending: "createPending c"
    from pending have "mode p = Create" using pending_mode(1) [OF assms(1)] by blast
    from created [OF this] ev pending show ?thesis by (simp add: step_def)
  next
    assume ev: "ev = StaleCreateResolved" and pending: "0 < createStale c"
    from pending have "mode p = Create" using pending_mode(1) [OF assms(1)] by blast
    from created [OF this] ev pending show ?thesis by (simp add: step_def stale_create_def)
  next
    assume ev: "ev = UpdateResolved" and pending: "updatePending c"
    from pending have "mode p = Edit" using pending_mode(2) [OF assms(1)] by blast
    from updated [OF this] ev pending show ?thesis by (simp add: step_def)
  next
    assume ev: "ev = StaleUpdateResolved" and pending: "0 < updateStale c"
    from pending have "mode p = Edit" using pending_mode(2) [OF assms(1)] by blast
    from updated [OF this] ev pending show ?thesis by (simp add: step_def stale_update_def)
  qed
qed

text \<open>
  Claim C3 at work, on a creation without callback and an update with one.
\<close>

theorem success_effects_witness:
  "reachable create_props creating \<and> createPending creating \<and>
   length (filter is_toast_success (snd (step create_props creating CreateResolved))) = 1 \<and>
   filter is_invalidate (snd (step create_props creating CreateResolved)) =
     [InvalidateQueries [Some ''states'']] \<and>
   filter is_completion (snd (step create_props creating CreateResolved)) = [Navigate ''/states''] \<and>
   reachable edit_props updating \<and> updatePending updating \<and>
   filter is_invalidate (snd (step edit_props updating UpdateResolved)) =
     [InvalidateQueries [Some ''states''], InvalidateQueries [Some ''state'', Some ''7'']] \<and>
   filter is_completion (snd (step edit_props updating UpdateResolved)) = [CallOnSuccess]"
proof -
  have c: "createPending creating" by (simp add: creating_eq)
  have u: "updatePending updating" by (simp add: updating_eq)
  from success_effects [OF reachable_creating, of CreateResolved] c
  have "length (filter is_toast_success (snd (step create_props creating CreateResolved))) = 1 \<and>
   filter is_invalidate (snd (step create_props creating CreateResolved)) =
     [InvalidateQueries [Some ''states'']] \<and>
   filter is_completion (snd (step create_props creating CreateResolved)) = [Navigate ''/states'']"
    by (simp add: create_props_def)
  moreover from success_effects [OF reachable_updating, of UpdateResolved] u
  have "filter is_invalidate (snd (step edit_props updating UpdateResolved)) =
     [InvalidateQueries [Some ''states''], InvalidateQueries [Some ''state'', Some ''7'']] \<and>
   filter is_completion (snd (step edit_props updating UpdateResolved)) = [CallOnSuccess]"
    by (simp add: edit_props_def)
  ultimately show ?thesis using c u reachable_creating reachable_updating by blast
qed

text \<open>
  Claim C4, as amended. The key \<open>id\<close> is mapped to the empty label: the whole key is
  the suffix \<open>id\<close>, which the mapping strips before it capitalizes.
\<close>

theorem prettifyFieldName_id: "prettifyFieldName ''id'' = []"
  by code_simp

text \<open>
  Claim C4 as stated fails: the label of the key \<open>id\<close> is not \<open>Id\<close>.
\<close>

theorem prettifyFieldName_id_counterexample: "prettifyFieldName ''id'' \<noteq> ''Id''"
  by code_simp

text \<open>
  Claim C5, as amended. Constructing the form in edit mode without an id (undefined or
  empty) raises nothing: the call returns the initial hooks and their first view, no
  request is issued and no fetch error is recorded, because the query is not enabled. The
  error \<open>State ID is required\<close> is what the fetching function would throw, were it run.
\<close>

theorem edit_without_id:
  assumes "mode p = Edit" and "\<not> truthy (stateId p)"
  shows "StateForm p = Inr (initial\<lparr>screen := render p initial\<rparr>, []) \<and>
     fetchError initial = None \<and> \<not> isFetchingState initial \<and>
     queryFn p = Inl (Error ''State ID is required'')"
  using assms by (simp add: StateForm_def mount_def enabled_def queryFn_def initial_def)

text \<open>
  The amended claim C5 at work, on an edit form whose id is undefined.
\<close>

theorem edit_without_id_witness:
  "mode edit_props_no_id = Edit \<and> \<not> truthy (stateId edit_props_no_id) \<and>
   StateForm edit_props_no_id = Inr (initial\<lparr>screen := render edit_props_no_id initial\<rparr>, []) \<and>
   queryFn edit_props_no_id = Inl (Error ''State ID is required'')"
proof -
  have m: "mode edit_props_no_id = Edit" by (simp add: edit_props_no_id_def)
  have t: "\<not> truthy (stateId edit_props_no_id)" by (simp add: edit_props_no_id_def truthy_def)
  from edit_without_id [OF m t] m t show ?thesis by blast
qed

text \<open>
  Claim C5 as stated fails: in edit mode without an id the construction returns, with the
  initial hooks and no effect.
\<close>

theorem edit_without_id_counterexample:
  "\<not> isl (StateForm edit_props_no_id) \<and>
   StateForm edit_props_no_id = Inr (initial\<lparr>screen := render edit_props_no_id initial\<rparr>, [])"
  by (simp add: StateForm_def mount_def enabled_def edit_props_no_id_def truthy_def)

text \<open>
  Claim C6 says that a second submit while a submission is in flight causes no further
  network call. The code at two submits with no render between them: after the first
  the creation is pending and the component would render the trigger disabled, but the
  screen still offers it, \<^verbatim>\<open>onSubmit\<close> does not look at \<^verbatim>\<open>isPending\<close>, and the
  second submit posts again.
\<close>

theorem double_submit_posts_twice:
  "createPending creating \<and>
   offers_submit (screen creating) \<and> \<not> offers_submit (render create_props creating) \<and>
   filter is_network (snd (step create_props creating Submit)) =
     [HttpPost ''/api/states'' ''Goa''] \<and>
   filter is_network (snd (steps create_props (fst (mount create_props))
     [ChangeInput ''Goa'', Submit, Submit])) =
     [HttpPost ''/api/states'' ''Goa'', HttpPost ''/api/states'' ''Goa'']"
  by (simp add: creating_eq sample_defs handler_defs offers_submit_def)

text \<open>
  Claim C7. In edit mode, when the first fetch, which is in flight, fails, the component
  renders the failure notice, which offers no submission; the failure issues no further
  request (no retry); from then on no event changes the hooks, no screen offers
  submission, and the only effect any event has is the navigation to \<open>/states\<close>, which
  the \<open>Back to States\<close> button of the rendered notice gives.
\<close>

theorem fetch_failure_terminal:
  assumes "reachable p c" and "mode p = Edit" and "isFetchingState c"
    and "step p c (FetchRejected e) = (c', effs)"
  shows "render p c' = FetchFailedView \<and> \<not> offers_submit (render p c') \<and>
     filter is_network effs = [] \<and>
     (\<forall>evs. fst (steps p c' evs) = c'\<lparr>screen := screen (fst (steps p c' evs))\<rparr> \<and>
        \<not> offers_submit (screen (fst (steps p c' evs))) \<and>
        set (snd (steps p c' evs)) \<subseteq> {Navigate ''/states''}) \<and>
     step p (c'\<lparr>screen := render p c'\<rparr>) Back = (c'\<lparr>screen := render p c'\<rparr>, [Navigate ''/states''])"
proof -
  from loading_quiet [OF assms(1)] assms(3)
  have quiet: "\<not> updatePending c" "updateStale c = 0" "\<not> isRefetching c" "screen c = LoadingView"
    by simp_all
  from edit_quiet [OF assms(1,2)]
  have no_create: "\<not> createPending c" "createStale c = 0" by simp_all
  from assms(3,4)
  have c': "c' = c\<lparr>isFetchingState := False, isRefetching := False, fetchError := Some e\<rparr>"
    and effs: "effs = [ConsoleError ''Failed to fetch state data:'']"
    by (simp_all add: step_def query_onError_def retry_def)
  have stuck: "fetch_failed p c'"
    using assms(2) quiet no_create by (simp add: fetch_failed_def c')
  have notice: "render p c' = FetchFailedView"
    using assms(2) by (simp add: render_def c')
  then have hidden: "\<not> offers_submit (render p c')"
    by (simp add: offers_submit_def)
  have quiet_failure: "filter is_network effs = []"
    by (simp add: effs)
  have later: "\<forall>evs. fst (steps p c' evs) = c'\<lparr>screen := screen (fst (steps p c' evs))\<rparr> \<and>
        \<not> offers_submit (screen (fst (steps p c' evs))) \<and>
        set (snd (steps p c' evs)) \<subseteq> {Navigate ''/states''}"
    using failed_steps [OF stuck] by blast
  have leave: "step p (c'\<lparr>screen := render p c'\<rparr>) Back =
      (c'\<lparr>screen := render p c'\<rparr>, [Navigate ''/states''])"
    by (simp add: notice step_def)
  from notice hidden quiet_failure later leave show ?thesis by blast
qed

text \<open>
  Claim C7 at work, on the edit form of state 7 whose fetch is rejected.
\<close>

theorem fetch_failure_terminal_witness:
  "reachable edit_props loading \<and> mode edit_props = Edit \<and> isFetchingState loading \<and>
   render edit_props failed = FetchFailedView \<and>
   (\<forall>evs. fst (steps edit_props failed evs) =
        failed\<lparr>screen := screen (fst (steps edit_props failed evs))\<rparr> \<and>
      \<not> offers_submit (screen (fst (steps edit_props failed evs))) \<and>
      set (snd (steps edit_props failed evs)) \<subseteq> {Navigate ''/states''}) \<and>
   snd (steps edit_props failed [Submit, Render, Submit, Back]) = [Navigate ''/states'']"
proof -
  have m: "mode edit_props = Edit" by (simp add: edit_props_def)
  have f: "isFetchingState loading" by (simp add: loading_eq)
  have s: "step edit_props loading (FetchRejected not_found) =
      (failed, snd (step edit_props loading (FetchRejected not_found)))"
    by (simp add: failed_def)
  note t = fetch_failure_terminal [OF reachable_loading m f s]
  have "snd (steps edit_props failed [Submit, Render, Submit, Back]) = [Navigate ''/states'']"
    by (simp add: failed_eq sample_defs handler_defs not_found_def)
  with t m f reachable_loading show ?thesis by blast
qed

text \<open>
  Claim C8, as amended. When a creation or an update that is in flight fails, the text the
  handler passes to the failure notification is: the message of the first field error,
  when that has a non-empty key and a non-empty message, with the raw key replaced by the
  key's label; without such a field error the server's generic message, or if that is
  absent, \<open>Failed to create state\<close> in create mode and \<open>Failed to update state\<close> in
  edit mode. This is stated for the errors that \<open>plain_error\<close> describes: no dollar
  sign in the key of the field error, a message that the replacement does not leave
  empty, a generic message that is not the empty string.
\<close>

theorem failure_message:
  assumes "reachable p c"
    and "ev = CreateRejected e \<and> createPending c \<or> ev = StaleCreateRejected e \<and> 0 < createStale c \<or>
         ev = UpdateRejected e \<and> updatePending c \<or> ev = StaleUpdateRejected e \<and> 0 < updateStale c"
    and "plain_error e"
  shows "filter is_toast_error (snd (step p c ev)) = [ToastError (spec_failure_message (mode p) e)]"
proof -
  have shown: "or_else (extractErrorMessage (Some e)) (fallback m) = spec_failure_message m e" for m
  proof (cases "first_field_error e")
    case None
    then have "extractErrorMessage (Some e) = err_message e" by (rule extract_generic)
    moreover from assms(3) None have "err_message e \<noteq> Some []"
      by (simp add: plain_error_def)
    ultimately show ?thesis using None
      by (simp add: or_else_def spec_failure_message_def split: option.splits)
  next
    case (Some km)
    obtain k msg where km: "km = (k, msg)" by (cases km)
    from assms(3) Some km have free: "CHR ''$'' \<notin> set k"
      and full: "replace_first msg k (prettifyFieldName k) \<noteq> []"
      by (simp_all add: plain_error_def)
    from free have "CHR ''$'' \<notin> set (prettifyFieldName k)" by (rule label_dollar_free)
    then have plain: "js_replace msg k (prettifyFieldName k) = replace_first msg k (prettifyFieldName k)"
      by (simp add: js_replace_plain replace_first_def)
    from Some km have "extractErrorMessage (Some e) = Some (js_replace msg k (prettifyFieldName k))"
      by (simp add: extract_field)
    with plain full Some km show ?thesis
      by (simp add: or_else_def spec_failure_message_def)
  qed
  have created: "mode p = Create \<Longrightarrow>
      filter is_toast_error (snd (createMutation_onError c e)) =
        [ToastError (spec_failure_message (mode p) e)]"
    using shown [of Create] by (simp add: createMutation_onError_def fallback_def)
  have updated: "mode p = Edit \<Longrightarrow>
      filter is_toast_error (snd (updateMutation_onError c e)) =
        [ToastError (spec_failure_message (mode p) e)]"
    using shown [of Edit] by (simp add: updateMutation_onError_def fallback_def)
  from assms(2) show ?thesis
  proof (elim disjE conjE)
    assume ev: "ev = CreateRejected e" and pending: "createPending c"
    from pending have "mode p = Create" using pending_mode(1) [OF assms(1)] by blast
    from created [OF this] ev pending show ?thesis by (simp add: step_def)
  next
    assume ev: "ev = StaleCreateRejected e" and pending: "0 < createStale c"
    from pending have "mode p = Create" using pending_mode(1) [OF assms(1)] by blast
    from created [OF this] ev pending show ?thesis by (simp add: step_def stale_create_def)
  next
    assume ev: "ev = UpdateRejected e" and pending: "updatePending c"
    from pending have "mode p = Edit" using pending_mode(2) [OF assms(1)] by blast
    from updated [OF this] ev pending show ?thesis by (simp add: step_def)
  next
    assume ev: "ev = StaleUpdateRejected e" and pending: "0 < updateStale c"
    from pending have "mode p = Edit" using pending_mode(2) [OF assms(1)] by blast
    from updated [OF this] ev pending show ?thesis by (simp add: step_def stale_update_def)
  qed
qed

text \<open>
  The amended claim C8 at work: a prefixed key becomes its label, and an error that says
  nothing gives the fallback of the mode.
\<close>

theorem failure_message_witness:
  "reachable create_props creating \<and> createPending creating \<and> plain_error name_error \<and>
   filter is_toast_error (snd (step create_props creating (CreateRejected name_error))) =
     [ToastError ''State Name must be unique''] \<and>
   reachable edit_props updating \<and> updatePending updating \<and> plain_error silent_error \<and>
   filter is_toast_error (snd (step edit_props updating (UpdateRejected silent_error))) =
     [ToastError ''Failed to update state'']"
proof -
  have c: "createPending creating" by (simp add: creating_eq)
  have u: "updatePending updating" by (simp add: updating_eq)
  have pn: "plain_error name_error" by code_simp
  have ps: "plain_error silent_error" by code_simp
  have n: "spec_failure_message Create name_error = ''State Name must be unique''"
    by code_simp
  have q: "spec_failure_message Edit silent_error = ''Failed to update state''"
    by code_simp
  from failure_message [OF reachable_creating _ pn, of "CreateRejected name_error"] c n
  have "filter is_toast_error (snd (step create_props creating (CreateRejected name_error))) =
     [ToastError ''State Name must be unique'']"
    by (simp add: create_props_def)
  moreover
  from failure_message [OF reachable_updating _ ps, of "UpdateRejected silent_error"] u q
  have "filter is_toast_error (snd (step edit_props updating (UpdateRejected silent_error))) =
     [ToastError ''Failed to update state'']"
    by (simp add: edit_props_def)
  ultimately show ?thesis using c u pn ps reachable_creating reachable_updating by blast
qed

text \<open>
  Claim C8 as stated fails: the errors object is there, its first field error has an empty
  message, and the text shown is not that message with the key replaced but the server's
  generic message, to which the check of the message falls back.
\<close>

theorem failure_message_counterexample:
  "err_errors blank_error = Some [(''stateName'', Some [])] \<and>
   filter is_toast_error (snd (step create_props creating (CreateRejected blank_error))) =
     [ToastError ''Validation failed''] \<and>
   js_replace [] ''stateName'' (prettifyFieldName ''stateName'') = [] \<and>
   ''Validation failed'' \<noteq> js_replace [] ''stateName'' (prettifyFieldName ''stateName'')"
proof -
  have r: "js_replace [] ''stateName'' label = []" for label
    by (simp add: js_replace_def)
  have "extractErrorMessage (Some blank_error) = Some ''Validation failed''"
    by (simp add: extractErrorMessage_def blank_error_def)
  then have "filter is_toast_error (snd (step create_props creating (CreateRejected blank_error))) =
     [ToastError ''Validation failed'']"
    by (simp add: step_def creating_eq createMutation_onError_def or_else_def)
  then show ?thesis by (simp add: r blank_error_def)
qed

text \<open>
  Claim C9, as amended. When a creation in flight succeeds, the form is reset before the
  completion fires and the field holds the empty default. The success handler of an
  update does not reset the form: the form is as it was when the completion has fired.
\<close>

theorem reset_after_create_only:
  assumes "reachable p c"
  shows "(createPending c \<longrightarrow>
        fieldValue (form (fst (step p c CreateResolved))) = [] \<and>
        FormReset None \<in>
          set (takeWhile (\<lambda>x. \<not> is_completion x) (snd (step p c CreateResolved)))) \<and>
     (0 < createStale c \<longrightarrow>
        fieldValue (form (fst (step p c StaleCreateResolved))) = [] \<and>
        FormReset None \<in>
          set (takeWhile (\<lambda>x. \<not> is_completion x) (snd (step p c StaleCreateResolved)))) \<and>
     (updatePending c \<longrightarrow>
        form (fst (step p c UpdateResolved)) = form c \<and>
        filter is_form_reset (snd (step p c UpdateResolved)) = [] \<and>
        filter is_completion (snd (step p c UpdateResolved)) = [complete p]) \<and>
     (0 < updateStale c \<longrightarrow>
        form (fst (step p c StaleUpdateResolved)) = form c \<and>
        filter is_form_reset (snd (step p c StaleUpdateResolved)) = [] \<and>
        filter is_completion (snd (step p c StaleUpdateResolved)) = [complete p])"
proof -
  have created: "mode p = Create \<Longrightarrow>
      fieldValue (form (fst (createMutation_onSuccess p c))) = [] \<and>
      FormReset None \<in>
        set (takeWhile (\<lambda>x. \<not> is_completion x) (snd (createMutation_onSuccess p c)))"
    using create_quiet [OF assms]
    by (simp add: createMutation_onSuccess_def form_reset_def)
  have updated: "form (fst (updateMutation_onSuccess p c)) = form c \<and>
      filter is_form_reset (snd (updateMutation_onSuccess p c)) = [] \<and>
      filter is_completion (snd (updateMutation_onSuccess p c)) = [complete p]"
    by (simp add: updateMutation_onSuccess_def invalidate_own_query_def queryFn_def complete_def)
  show ?thesis
  proof (intro conjI impI)
    assume pending: "createPending c"
    then have "mode p = Create" using pending_mode(1) [OF assms] by blast
    from created [OF this] pending
    show "fieldValue (form (fst (step p c CreateResolved))) = []"
      and "FormReset None \<in>
        set (takeWhile (\<lambda>x. \<not> is_completion x) (snd (step p c CreateResolved)))"
      by (simp_all add: step_def)
  next
    assume pending: "0 < createStale c"
    then have "mode p = Create" using pending_mode(1) [OF assms] by blast
    from created [OF this] pending
    show "fieldValue (form (fst (step p c StaleCreateResolved))) = []"
      and "FormReset None \<in>
        set (takeWhile (\<lambda>x. \<not> is_completion x) (snd (step p c StaleCreateResolved)))"
      by (simp_all add: step_def stale_create_def)
  next
    assume pending: "updatePending c"
    from updated pending
    show "form (fst (step p c UpdateResolved)) = form c"
      and "filter is_form_reset (snd (step p c UpdateResolved)) = []"
      and "filter is_completion (snd (step p c UpdateResolved)) = [complete p]"
      by (simp_all add: step_def)
  next
    assume pending: "0 < updateStale c"
    from updated pending
    show "form (fst (step p c StaleUpdateResolved)) = form c"
      and "filter is_form_reset (snd (step p c StaleUpdateResolved)) = []"
      and "filter is_completion (snd (step p c StaleUpdateResolved)) = [complete p]"
      by (simp_all add: step_def stale_update_def)
  qed
qed

text \<open>
  The amended claim C9 at work: \<open>Goa\<close> is cleared by the creation's handler, \<open>Tejas\<close>
  stays through the update's handler.
\<close>

theorem reset_after_create_only_witness:
  "reachable create_props creating \<and> createPending creating \<and>
   fieldValue (form creating) = ''Goa'' \<and>
   fieldValue (form (fst (step create_props creating CreateResolved))) = [] \<and>
   reachable edit_props updating \<and> updatePending updating \<and>
   fieldValue (form updating) = ''Tejas'' \<and>
   fieldValue (form (fst (step edit_props updating UpdateResolved))) = ''Tejas''"
proof -
  have c: "createPending creating" by (simp add: creating_eq)
  have u: "updatePending updating" by (simp add: updating_eq)
  have vc: "fieldValue (form creating) = ''Goa''" by (simp add: creating_eq)
  have vu: "fieldValue (form updating) = ''Tejas''" by (simp add: updating_eq)
  from reset_after_create_only [OF reachable_creating] c
  have "fieldValue (form (fst (step create_props creating CreateResolved))) = []" by blast
  moreover from reset_after_create_only [OF reachable_updating] u
  have "form (fst (step edit_props updating UpdateResolved)) = form updating" by blast
  then have "fieldValue (form (fst (step edit_props updating UpdateResolved))) = ''Tejas''"
    using vu by simp
  ultimately show ?thesis using c u vc vu reachable_creating reachable_updating by blast
qed

text \<open>
  Claim C9 as stated fails: the update's handler invalidates the form's own query, the
  fetch this starts brings the state as the server now holds it, and the form is reset
  to it after the update; what the user typed in between is lost.
\<close>

theorem reset_after_create_only_counterexample:
  "updatePending updating \<and>
   snd (steps edit_props updating [UpdateResolved, FetchResolved tejas]) =
     [ToastSuccess ''State updated successfully!'',
      InvalidateQueries [Some ''states''],
      InvalidateQueries [Some ''state'', Some ''7''],
      HttpGet ''/api/states/7'',
      CallOnSuccess,
      FormReset (Some ''Tejas'')] \<and>
   fieldValue (form (fst (steps edit_props updating
     [UpdateResolved, Render, ChangeInput ''Tejas Nuevo'']))) = ''Tejas Nuevo'' \<and>
   fieldValue (form (fst (steps edit_props updating
     [UpdateResolved, Render, ChangeInput ''Tejas Nuevo'', FetchResolved tejas]))) = ''Tejas''"
  by (simp add: updating_eq sample_defs handler_defs Let_def complete_def)



end
